theory Spec2Isabelle
  imports Main
begin

section \<open>The model store of \<open>Frontend/src/store/useModelStore.ts\<close>\<close>

subsection \<open>Data\<close>

text \<open>
  Modelled from the spec: the \<open>Model\<close> interface of \<open>../types\<close>, which the store imports.
  Its fields are \<open>id\<close>, \<open>name\<close>, \<open>provider\<close> and \<open>requiresApiKey\<close>, and the optional
  \<open>isCustom\<close> and \<open>apiKey\<close>. An optional property is an \<open>option\<close>: \<open>None\<close> when the
  object has no such key. A string is truthy when it is not empty.

  \<open>StoredModel = Omit<Model, 'apiKey'>\<close> is a compile-time view only. The objects kept in
  \<open>models\<close> are ordinary objects built by spreading, so the record keeps the \<open>apiKey\<close> slot
  for them too: \<open>apiKey m = None\<close> says that the stored object has no \<open>apiKey\<close> key.
\<close>

record model =
  id_m :: string
  name :: string
  provider :: string
  requiresApiKey :: bool
  isCustom :: "bool option"
  apiKey :: "string option"

text \<open>
  \<open>Partial<Model>\<close>: every key may be missing. \<open>'apiKey' in updates\<close> is
  \<open>apiKey_u u \<noteq> None\<close>; a key that is present with a falsy value is \<open>Some []\<close>.
\<close>

record updates =
  id_u :: "string option"
  name_u :: "string option"
  provider_u :: "string option"
  requiresApiKey_u :: "bool option"
  isCustom_u :: "bool option"
  apiKey_u :: "string option"

text \<open>The data part of \<open>ModelState\<close>.\<close>

record store =
  models :: "model list"
  activeId :: string

text \<open>The two methods of \<open>kmsService\<close> that the store calls, with their arguments.\<close>

datatype kms_call = StoreAPIKey string string | DeleteAPIKey string

text \<open>
  \<open>kmsService\<close> is outside the store. It is a parameter: for each call it says whether
  the returned promise resolves (\<open>None\<close>) or rejects with some error (\<open>Some e\<close>).
\<close>

type_synonym 'e kms = "kms_call \<Rightarrow> 'e option"

text \<open>
  What one call of an operation does, run on its own from store \<open>s\<close>: the \<open>kmsService\<close>
  calls it made, in order; the error its promise rejected with, if any; and the store
  when the promise settled.
\<close>

record 'e run =
  trace :: "kms_call list"
  failure :: "'e option"
  after :: store

subsection \<open>Effects\<close>

text \<open>\<open>set(f)\<close> as the last statement of an operation: the store becomes \<open>f state\<close>.\<close>

definition set_state :: "(store \<Rightarrow> store) \<Rightarrow> store \<Rightarrow> 'e run" where
  "set_state f s = \<lparr>trace = [], failure = None, after = f s\<rparr>"

text \<open>
  \<open>await kmsService.call(...); rest\<close>: a rejected promise throws out of the \<open>async\<close>
  function, so \<open>rest\<close> does not run; otherwise \<open>rest\<close> runs after the call.
\<close>

definition await_kms :: "'e kms \<Rightarrow> kms_call \<Rightarrow> (store \<Rightarrow> 'e run) \<Rightarrow> store \<Rightarrow> 'e run" where
  "await_kms kms c rest s =
     (case kms c of
        Some e \<Rightarrow> \<lparr>trace = [c], failure = Some e, after = s\<rparr>
      | None \<Rightarrow> (let r = rest s in r\<lparr>trace := c # trace r\<rparr>))"

subsection \<open>Initial state\<close>

definition DEFAULT_MODELS :: "model list" where
  "DEFAULT_MODELS =
     [\<lparr>id_m = ''default'', name = ''default'', provider = ''default'',
       requiresApiKey = False, isCustom = None, apiKey = None\<rparr>]"

definition initial :: store where
  "initial = \<lparr>models = DEFAULT_MODELS,
              activeId = (case DEFAULT_MODELS of m # _ \<Rightarrow> id_m m | [] \<Rightarrow> [])\<rparr>"

subsection \<open>Operations\<close>

text \<open>\<open>{ ...m, ...updates }\<close>: every key present in \<open>updates\<close> overrides the one of \<open>m\<close>.\<close>

definition spread :: "model \<Rightarrow> updates \<Rightarrow> model" where
  "spread m u =
     \<lparr>id_m = (case id_u u of Some v \<Rightarrow> v | None \<Rightarrow> id_m m),
      name = (case name_u u of Some v \<Rightarrow> v | None \<Rightarrow> name m),
      provider = (case provider_u u of Some v \<Rightarrow> v | None \<Rightarrow> provider m),
      requiresApiKey = (case requiresApiKey_u u of Some v \<Rightarrow> v | None \<Rightarrow> requiresApiKey m),
      isCustom = (case isCustom_u u of Some v \<Rightarrow> Some v | None \<Rightarrow> isCustom m),
      apiKey = (case apiKey_u u of Some v \<Rightarrow> Some v | None \<Rightarrow> apiKey m)\<rparr>"

definition addModel :: "'e kms \<Rightarrow> model \<Rightarrow> store \<Rightarrow> 'e run" where
  "addModel kms model s =
     (let safeModel = model\<lparr>apiKey := None\<rparr>;
          commit = set_state (\<lambda>state.
            \<lparr>models = models state @ [safeModel\<lparr>isCustom := Some True\<rparr>],
             activeId = id_m model\<rparr>)
      in case apiKey model of
           Some k \<Rightarrow>
             if k \<noteq> [] \<and> provider model \<noteq> []
             then await_kms kms (StoreAPIKey (provider model) k) commit s
             else commit s
         | None \<Rightarrow> commit s)"

definition updateModel :: "'e kms \<Rightarrow> string \<Rightarrow> updates \<Rightarrow> store \<Rightarrow> 'e run" where
  "updateModel kms i u s =
     (let commit = set_state (\<lambda>state.
            state\<lparr>models := map (\<lambda>m. if id_m m = i then spread m u else m) (models state)\<rparr>)
      in case apiKey_u u of
           Some k \<Rightarrow>
             (case provider_u u of
                Some p \<Rightarrow>
                  if p \<noteq> []
                  then (if k \<noteq> []
                        then await_kms kms (StoreAPIKey p k) commit s
                        else await_kms kms (DeleteAPIKey p) commit s)
                  else commit s
              | None \<Rightarrow> commit s)
         | None \<Rightarrow> commit s)"

definition setActive :: "'e kms \<Rightarrow> string \<Rightarrow> store \<Rightarrow> 'e run" where
  "setActive kms i s =
     (let previousModel = find (\<lambda>m. id_m m = activeId s) (models s);
          newModel = find (\<lambda>m. id_m m = i) (models s)
      in case previousModel of
           Some p \<Rightarrow>
             if map_option provider newModel = Some ''default''
                \<and> isCustom p = Some True \<and> provider p \<noteq> []
             then await_kms kms (DeleteAPIKey (provider p))
                    (set_state (\<lambda>state.
                       \<lparr>models = filter (\<lambda>m. id_m m \<noteq> id_m p) (models state),
                        activeId = i\<rparr>)) s
             else set_state (\<lambda>state. state\<lparr>activeId := i\<rparr>) s
         | None \<Rightarrow> set_state (\<lambda>state. state\<lparr>activeId := i\<rparr>) s)"

definition removeModel :: "'e kms \<Rightarrow> string \<Rightarrow> store \<Rightarrow> 'e run" where
  "removeModel kms i s =
     (let model = find (\<lambda>m. id_m m = i) (models s);
          commit = set_state (\<lambda>state.
            \<lparr>models = filter (\<lambda>m. id_m m \<noteq> i) (models state),
             activeId =
               (if activeId state = i
                then (case models state of
                        m # _ \<Rightarrow> (if id_m m \<noteq> [] then id_m m else [])
                      | [] \<Rightarrow> [])
                else activeId state)\<rparr>)
      in case model of
           Some m \<Rightarrow>
             if provider m \<noteq> []
             then await_kms kms (DeleteAPIKey (provider m)) commit s
             else commit s
         | None \<Rightarrow> commit s)"

text \<open>The four operations of \<open>ModelState\<close> as one interface.\<close>

datatype operation =
  AddModel model | UpdateModel string updates | SetActive string | RemoveModel string

fun perform :: "'e kms \<Rightarrow> operation \<Rightarrow> store \<Rightarrow> 'e run" where
  "perform kms (AddModel model) s = addModel kms model s"
| "perform kms (UpdateModel i u) s = updateModel kms i u s"
| "perform kms (SetActive i) s = setActive kms i s"
| "perform kms (RemoveModel i) s = removeModel kms i s"

subsection \<open>Predicates on the store\<close>

text \<open>\<open>activeId\<close> is the id of some entry of \<open>models\<close>, or \<open>""\<close> when \<open>models\<close> is empty.\<close>

definition activeId_valid :: "store \<Rightarrow> bool" where
  "activeId_valid s =
     (activeId s \<in> set (map id_m (models s)) \<or> (models s = [] \<and> activeId s = []))"


text \<open>No entry of \<open>models\<close> has an \<open>apiKey\<close> key.\<close>

definition no_apiKey :: "store \<Rightarrow> bool" where
  "no_apiKey s = list_all (\<lambda>m. apiKey m = None) (models s)"

subsection \<open>Example values\<close>

text \<open>A \<open>kmsService\<close> whose calls all resolve, and one whose calls all reject.\<close>

abbreviation kms_ok :: "string kms" where
  "kms_ok \<equiv> (\<lambda>c. None)"

abbreviation kms_down :: "string kms" where
  "kms_down \<equiv> (\<lambda>c. Some ''unreachable'')"

abbreviation default_model :: model where
  "default_model \<equiv>
     \<lparr>id_m = ''default'', name = ''default'', provider = ''default'',
      requiresApiKey = False, isCustom = None, apiKey = None\<rparr>"

abbreviation gpt_input :: model where
  "gpt_input \<equiv>
     \<lparr>id_m = ''gpt'', name = ''GPT'', provider = ''openai'',
      requiresApiKey = True, isCustom = None, apiKey = Some ''sk-123''\<rparr>"

abbreviation gpt_stored :: model where
  "gpt_stored \<equiv>
     \<lparr>id_m = ''gpt'', name = ''GPT'', provider = ''openai'',
      requiresApiKey = True, isCustom = Some True, apiKey = None\<rparr>"

abbreviation claude_stored :: model where
  "claude_stored \<equiv>
     \<lparr>id_m = ''claude'', name = ''Claude'', provider = ''anthropic'',
      requiresApiKey = True, isCustom = Some True, apiKey = None\<rparr>"

abbreviation local_input :: model where
  "local_input \<equiv>
     \<lparr>id_m = ''local'', name = ''Local'', provider = ''default'',
      requiresApiKey = False, isCustom = None, apiKey = None\<rparr>"

abbreviation local_stored :: model where
  "local_stored \<equiv>
     \<lparr>id_m = ''local'', name = ''Local'', provider = ''default'',
      requiresApiKey = False, isCustom = Some True, apiKey = None\<rparr>"

abbreviation no_updates :: updates where
  "no_updates \<equiv>
     \<lparr>id_u = None, name_u = None, provider_u = None, requiresApiKey_u = None,
      isCustom_u = None, apiKey_u = None\<rparr>"

text \<open>The store after \<open>addModel(gpt_input)\<close> on the initial state.\<close>

abbreviation with_gpt :: store where
  "with_gpt \<equiv> \<lparr>models = [default_model, gpt_stored], activeId = ''gpt''\<rparr>"

section \<open>Properties\<close>

subsection \<open>Shape of a run\<close>

lemma set_state_simps [simp]:
  "trace (set_state f s) = []"
  "failure (set_state f s) = None"
  "after (set_state f s) = f s"
  by (simp_all add: set_state_def)

lemma await_kms_trace [simp]:
  "trace (await_kms kms c (set_state f) s) = [c]"
  by (simp add: await_kms_def split: option.splits)

lemma await_kms_failure [simp]:
  "failure (await_kms kms c (set_state f) s) = kms c"
  by (simp add: await_kms_def split: option.splits)

lemma await_kms_after [simp]:
  "after (await_kms kms c (set_state f) s) = (if kms c = None then f s else s)"
  by (simp add: await_kms_def split: option.splits)

text \<open>Every operation is one \<open>set\<close>, preceded by at most one awaited call.\<close>

lemma perform_shape:
  "(\<exists>f. perform kms op s = set_state f s)
   \<or> (\<exists>c f. perform kms op s = await_kms kms c (set_state f) s)"
  by (cases op)
     (auto simp: addModel_def updateModel_def setActive_def removeModel_def Let_def
           split: option.splits)

text \<open>The store an operation leaves: the old one when its call rejected, else the commit.\<close>

lemma addModel_after:
  "after (addModel kms model s) = s \<or>
   after (addModel kms model s) =
     \<lparr>models = models s @ [model\<lparr>apiKey := None, isCustom := Some True\<rparr>],
      activeId = id_m model\<rparr>"
  by (auto simp: addModel_def Let_def split: option.splits)

lemma updateModel_after:
  "after (updateModel kms i u s) = s \<or>
   after (updateModel kms i u s) =
     s\<lparr>models := map (\<lambda>m. if id_m m = i then spread m u else m) (models s)\<rparr>"
  by (auto simp: updateModel_def Let_def split: option.splits)

lemma find_mem: "find P xs = Some x \<Longrightarrow> x \<in> set xs \<and> P x"
  by (induction xs) (auto split: if_splits)

lemma setActive_after:
  "after (setActive kms i s) = s \<or> after (setActive kms i s) = s\<lparr>activeId := i\<rparr> \<or>
   (\<exists>p. find (\<lambda>m. id_m m = activeId s) (models s) = Some p \<and> isCustom p = Some True
      \<and> (\<exists>n. find (\<lambda>m. id_m m = i) (models s) = Some n \<and> provider n = ''default'')
      \<and> after (setActive kms i s) =
          \<lparr>models = filter (\<lambda>m. id_m m \<noteq> activeId s) (models s), activeId = i\<rparr>)"
  by (auto simp: setActive_def Let_def split: option.splits dest: find_mem)

lemma removeModel_after:
  "after (removeModel kms i s) = s \<or>
   after (removeModel kms i s) =
     \<lparr>models = filter (\<lambda>m. id_m m \<noteq> i) (models s),
      activeId =
        (if activeId s = i
         then (case models s of m # _ \<Rightarrow> (if id_m m \<noteq> [] then id_m m else []) | [] \<Rightarrow> [])
         else activeId s)\<rparr>"
  by (auto simp: removeModel_def Let_def split: option.splits)

subsection \<open>Lists of entries\<close>

lemma map_no_match:
  "i \<notin> set (map id_m ms) \<Longrightarrow> map (\<lambda>m. if id_m m = i then g m else m) ms = ms"
  by (induction ms) auto



lemma ids_spread_other:
  "i \<noteq> a \<Longrightarrow> a \<in> set (map id_m ms) \<Longrightarrow>
   a \<in> set (map id_m (map (\<lambda>m. if id_m m = i then spread m u else m) ms))"
  by (induction ms) (auto simp: spread_def)

text \<open>With unique ids, filtering one id out removes exactly the entry that carries it.\<close>

lemma filter_remove1:
  "distinct (map f xs) \<Longrightarrow> p \<in> set xs \<Longrightarrow> filter (\<lambda>m. f m \<noteq> f p) xs = remove1 p xs"
proof (induction xs)
  case Nil
  then show ?case by simp
next
  case (Cons x xs)
  show ?case
  proof (cases "x = p")
    case True
    with Cons.prems have "\<forall>m\<in>set xs. f m \<noteq> f p" by (auto simp: image_iff)
    then have "filter (\<lambda>m. f m \<noteq> f p) xs = xs" by simp
    with True show ?thesis by simp
  next
    case False
    with Cons.prems have "p \<in> set xs" and "f x \<noteq> f p" by (auto simp: image_iff)
    with Cons False show ?thesis by simp
  qed
qed


subsection \<open>Example runs\<close>

lemma initial_eq: "initial = \<lparr>models = [default_model], activeId = ''default''\<rparr>"
  by (simp add: initial_def DEFAULT_MODELS_def)

lemma added_gpt: "after (addModel kms_ok gpt_input initial) = with_gpt"
  by (simp add: addModel_def initial_eq)

lemma added_local:
  "after (addModel kms_ok local_input initial) =
     \<lparr>models = [default_model, local_stored], activeId = ''local''\<rparr>"
  by (simp add: addModel_def initial_eq)

text \<open>
  A store whose first entry is the active one is reached from the initial state:
  add \<open>gpt\<close>, remove \<open>default\<close>, add \<open>claude\<close>, switch back to \<open>gpt\<close>.
\<close>

lemma two_custom_reachable:
  "after (setActive kms_ok ''gpt''
     (after (addModel kms_ok (claude_stored\<lparr>apiKey := Some ''sk-ant''\<rparr>)
       (after (removeModel kms_ok ''default''
         (after (addModel kms_ok gpt_input initial)))))))
   = \<lparr>models = [gpt_stored, claude_stored], activeId = ''gpt''\<rparr>"
proof -
  have "after (removeModel kms_ok ''default'' with_gpt)
      = \<lparr>models = [gpt_stored], activeId = ''gpt''\<rparr>"
    by (simp add: removeModel_def)
  moreover have "after (addModel kms_ok (claude_stored\<lparr>apiKey := Some ''sk-ant''\<rparr>)
        \<lparr>models = [gpt_stored], activeId = ''gpt''\<rparr>)
      = \<lparr>models = [gpt_stored, claude_stored], activeId = ''claude''\<rparr>"
    by (simp add: addModel_def)
  moreover have "after (setActive kms_ok ''gpt''
        \<lparr>models = [gpt_stored, claude_stored], activeId = ''claude''\<rparr>)
      = \<lparr>models = [gpt_stored, claude_stored], activeId = ''gpt''\<rparr>"
    by (simp add: setActive_def)
  ultimately show ?thesis by (simp only: added_gpt)
qed

subsection \<open>addModel\<close>

text \<open>
  C7. \<open>addModel\<close> succeeds exactly when it needs no credential write (the input has no
  truthy \<open>apiKey\<close>, or no provider) or \<open>storeAPIKey\<close> resolves. When it succeeds, the new
  \<open>models\<close> is the old one followed by exactly one entry, the input without its \<open>apiKey\<close>
  and with \<open>isCustom\<close> true, and \<open>activeId\<close> is the id of the input, whatever the state
  was.
\<close>

theorem addModel_appends:
  "(failure (addModel kms model s) = None
      \<longleftrightarrow> (\<forall>k. apiKey model = Some k \<and> k \<noteq> [] \<and> provider model \<noteq> []
                \<longrightarrow> kms (StoreAPIKey (provider model) k) = None))
   \<and> (failure (addModel kms model s) = None \<longrightarrow>
        after (addModel kms model s) =
          \<lparr>models = models s @ [model\<lparr>apiKey := None, isCustom := Some True\<rparr>],
           activeId = id_m model\<rparr>)"
  by (auto simp: addModel_def Let_def split: option.splits)

text \<open>
  The spec's scenario with a resolving service; a profile without \<open>apiKey\<close>, which is
  added though the service is down; and the scenario again with the service down.
\<close>

theorem addModel_appends_witness:
  "failure (addModel kms_ok gpt_input initial) = None
   \<and> after (addModel kms_ok gpt_input initial) =
       \<lparr>models = [default_model, gpt_stored], activeId = ''gpt''\<rparr>
   \<and> failure (addModel kms_down local_input initial) = None
   \<and> after (addModel kms_down local_input initial) =
       \<lparr>models = [default_model, local_stored], activeId = ''local''\<rparr>
   \<and> failure (addModel kms_down gpt_input initial) \<noteq> None"
  using addModel_appends [of kms_ok gpt_input initial]
    addModel_appends [of kms_down local_input initial]
    addModel_appends [of kms_down gpt_input initial]
  by (simp add: initial_eq)

text \<open>The call \<open>addModel\<close> makes, and the other three operations keep \<open>apiKey\<close> out.\<close>

lemma addModel_trace:
  "trace (addModel kms model s) =
     (case apiKey model of
        Some k \<Rightarrow> if k \<noteq> [] \<and> provider model \<noteq> [] then [StoreAPIKey (provider model) k] else []
      | None \<Rightarrow> [])"
  by (simp add: addModel_def Let_def split: option.splits)

lemma addModel_no_apiKey: "no_apiKey s \<Longrightarrow> no_apiKey (after (addModel kms model s))"
  using addModel_after [of kms model s] by (auto simp: no_apiKey_def)

lemma setActive_no_apiKey: "no_apiKey s \<Longrightarrow> no_apiKey (after (setActive kms i s))"
  using setActive_after [of kms i s] by (auto simp: no_apiKey_def list_all_iff)

lemma removeModel_no_apiKey: "no_apiKey s \<Longrightarrow> no_apiKey (after (removeModel kms i s))"
  using removeModel_after [of kms i s] by (auto simp: no_apiKey_def list_all_iff)

subsection \<open>Rejected calls\<close>

text \<open>
  C2. For each of the four operations: when the \<open>kmsService\<close> call it makes rejects with
  \<open>e\<close>, the operation rejects with \<open>e\<close> too, and the store (\<open>models\<close> and \<open>activeId\<close>) is
  the one from before the call.
\<close>

theorem rejected_call_leaves_store:
  assumes "c \<in> set (trace (perform kms op s))" and "kms c = Some e"
  shows "failure (perform kms op s) = Some e \<and> after (perform kms op s) = s"
  using perform_shape [of kms op s] assms by auto

theorem rejected_call_leaves_store_witness:
  "DeleteAPIKey ''openai'' \<in> set (trace (perform kms_down (RemoveModel ''gpt'') with_gpt))
   \<and> kms_down (DeleteAPIKey ''openai'') = Some ''unreachable''
   \<and> failure (perform kms_down (RemoveModel ''gpt'') with_gpt) = Some ''unreachable''
   \<and> after (perform kms_down (RemoveModel ''gpt'') with_gpt) = with_gpt"
proof -
  have c: "DeleteAPIKey ''openai''
      \<in> set (trace (perform kms_down (RemoveModel ''gpt'') with_gpt))"
    by (simp add: removeModel_def)
  have k: "kms_down (DeleteAPIKey ''openai'') = Some ''unreachable''"
    by simp
  from rejected_call_leaves_store [OF c k] c k show ?thesis by blast
qed

text \<open>The same for each operation at an input where it makes a call.\<close>

lemma rejected_examples:
  "perform kms_down (AddModel gpt_input) initial =
     \<lparr>trace = [StoreAPIKey ''openai'' ''sk-123''], failure = Some ''unreachable'',
      after = initial\<rparr>"
  "perform kms_down (UpdateModel ''gpt'' (no_updates\<lparr>provider_u := Some ''openai'',
       apiKey_u := Some []\<rparr>)) with_gpt =
     \<lparr>trace = [DeleteAPIKey ''openai''], failure = Some ''unreachable'', after = with_gpt\<rparr>"
  "perform kms_down (SetActive ''default'') with_gpt =
     \<lparr>trace = [DeleteAPIKey ''openai''], failure = Some ''unreachable'', after = with_gpt\<rparr>"
  "perform kms_down (RemoveModel ''gpt'') with_gpt =
     \<lparr>trace = [DeleteAPIKey ''openai''], failure = Some ''unreachable'', after = with_gpt\<rparr>"
  by (simp_all add: addModel_def updateModel_def setActive_def removeModel_def await_kms_def)

subsection \<open>updateModel\<close>

text \<open>
  C8. \<open>updateModel\<close> calls \<open>kmsService\<close> exactly when \<open>updates\<close> has the \<open>apiKey\<close> key
  (whatever its value) and \<open>updates.provider\<close> is set. The call is then
  \<open>storeAPIKey(updates.provider, updates.apiKey)\<close> when the key's value is truthy and
  \<open>deleteAPIKey(updates.provider)\<close> when it is not.
\<close>

theorem updateModel_calls:
  "(trace (updateModel kms i u s) \<noteq> []
      \<longleftrightarrow> apiKey_u u \<noteq> None \<and> (\<exists>p. provider_u u = Some p \<and> p \<noteq> []))
   \<and> (\<forall>k p. apiKey_u u = Some k \<and> provider_u u = Some p \<and> p \<noteq> [] \<longrightarrow>
         trace (updateModel kms i u s) =
           [if k \<noteq> [] then StoreAPIKey p k else DeleteAPIKey p])"
  by (auto simp: updateModel_def Let_def split: option.splits)

theorem updateModel_calls_witness:
  "trace (updateModel kms_ok ''gpt''
      (no_updates\<lparr>provider_u := Some ''openai'', apiKey_u := Some ''sk-456''\<rparr>) with_gpt)
     = [StoreAPIKey ''openai'' ''sk-456'']
   \<and> trace (updateModel kms_ok ''gpt''
      (no_updates\<lparr>provider_u := Some ''openai'', apiKey_u := Some []\<rparr>) with_gpt)
     = [DeleteAPIKey ''openai'']
   \<and> trace (updateModel kms_ok ''gpt''
      (no_updates\<lparr>provider_u := Some ''openai''\<rparr>) with_gpt) = []
   \<and> trace (updateModel kms_ok ''gpt''
      (no_updates\<lparr>apiKey_u := Some ''sk-456''\<rparr>) with_gpt) = []"
  using
    updateModel_calls [of kms_ok "''gpt''"
      "no_updates\<lparr>provider_u := Some ''openai'', apiKey_u := Some ''sk-456''\<rparr>" with_gpt]
    updateModel_calls [of kms_ok "''gpt''"
      "no_updates\<lparr>provider_u := Some ''openai'', apiKey_u := Some []\<rparr>" with_gpt]
    updateModel_calls [of kms_ok "''gpt''"
      "no_updates\<lparr>provider_u := Some ''openai''\<rparr>" with_gpt]
    updateModel_calls [of kms_ok "''gpt''"
      "no_updates\<lparr>apiKey_u := Some ''sk-456''\<rparr>" with_gpt]
  by simp

text \<open>
  C10. When \<open>id\<close> matches no entry, \<open>updateModel\<close> leaves the store as it was. The call to
  \<open>kmsService\<close> is made all the same when \<open>updates\<close> has the \<open>apiKey\<close> key and
  \<open>updates.provider\<close> is set, and the operation rejects when that call does.
\<close>

theorem updateModel_unknown_id:
  assumes "i \<notin> set (map id_m (models s))"
  shows "after (updateModel kms i u s) = s
    \<and> (\<forall>k p. apiKey_u u = Some k \<and> provider_u u = Some p \<and> p \<noteq> [] \<longrightarrow>
          trace (updateModel kms i u s) =
            [if k \<noteq> [] then StoreAPIKey p k else DeleteAPIKey p]
        \<and> failure (updateModel kms i u s) =
            kms (if k \<noteq> [] then StoreAPIKey p k else DeleteAPIKey p))"
  using assms by (auto simp: updateModel_def Let_def map_no_match split: option.splits)

theorem updateModel_unknown_id_witness:
  "''ghost'' \<notin> set (map id_m (models with_gpt))
   \<and> after (updateModel kms_down ''ghost''
        (no_updates\<lparr>provider_u := Some ''openai'', apiKey_u := Some ''sk-456''\<rparr>) with_gpt)
       = with_gpt
   \<and> trace (updateModel kms_down ''ghost''
        (no_updates\<lparr>provider_u := Some ''openai'', apiKey_u := Some ''sk-456''\<rparr>) with_gpt)
       = [StoreAPIKey ''openai'' ''sk-456'']
   \<and> failure (updateModel kms_down ''ghost''
        (no_updates\<lparr>provider_u := Some ''openai'', apiKey_u := Some ''sk-456''\<rparr>) with_gpt)
       = Some ''unreachable''"
proof -
  have h: "''ghost'' \<notin> set (map id_m (models with_gpt))"
    by simp
  from updateModel_unknown_id [OF h, of kms_down
      "no_updates\<lparr>provider_u := Some ''openai'', apiKey_u := Some ''sk-456''\<rparr>"] h
  show ?thesis by simp
qed

text \<open>
  C1. No entry of \<open>models\<close> ever has an \<open>apiKey\<close> key, also after an \<open>updateModel\<close> whose
  \<open>updates\<close> has one. The code breaks this: from the initial state, \<open>addModel\<close> of the
  \<open>gpt\<close> profile and then \<open>updateModel("gpt", {provider: "openai", apiKey: "sk-456"})\<close>
  leave the key in the stored entry, since the merge spreads all of \<open>updates\<close>.
\<close>

theorem updateModel_stores_apiKey:
  "after (updateModel kms_ok ''gpt''
      (no_updates\<lparr>provider_u := Some ''openai'', apiKey_u := Some ''sk-456''\<rparr>)
      (after (addModel kms_ok gpt_input initial)))
   = \<lparr>models = [default_model, gpt_stored\<lparr>apiKey := Some ''sk-456''\<rparr>], activeId = ''gpt''\<rparr>"
  by (simp add: added_gpt) (simp add: updateModel_def spread_def)

text \<open>In general, every entry that a successful \<open>updateModel\<close> merges gets the key.\<close>

lemma updateModel_merges_apiKey:
  assumes "apiKey_u u = Some k" and "failure (updateModel kms i u s) = None"
    and "m \<in> set (models s)" and "id_m m = i"
  shows "spread m u \<in> set (models (after (updateModel kms i u s)))
    \<and> apiKey (spread m u) = Some k"
proof -
  from assms(2) have
    "after (updateModel kms i u s) =
       s\<lparr>models := map (\<lambda>m. if id_m m = i then spread m u else m) (models s)\<rparr>"
    by (auto simp: updateModel_def Let_def split: option.splits if_splits)
  with assms(1,3,4) show ?thesis
    by (auto simp: spread_def image_iff intro!: bexI [of _ m])
qed

subsection \<open>setActive\<close>

text \<open>
  C4. When the entry found for the requested id has provider \<open>"default"\<close> and the entry
  found for the current \<open>activeId\<close> is custom with a provider set, \<open>setActive\<close> makes exactly
  one call, \<open>deleteAPIKey\<close> for the previous entry's provider, and when that call
  succeeds the previous entry is gone from \<open>models\<close> (exactly it, when ids are unique)
  and \<open>activeId\<close> is the requested id. In every other case \<open>setActive\<close> makes no call and
  changes nothing but \<open>activeId\<close>, which becomes the requested id.
\<close>

theorem setActive_discards_previous_on_default:
  "(find (\<lambda>m. id_m m = i) (models s) = Some n \<and> provider n = ''default'' \<and>
    find (\<lambda>m. id_m m = activeId s) (models s) = Some p \<and> isCustom p = Some True \<and>
    provider p \<noteq> []
    \<longrightarrow> trace (setActive kms i s) = [DeleteAPIKey (provider p)]
       \<and> (kms (DeleteAPIKey (provider p)) = None \<longrightarrow>
            failure (setActive kms i s) = None
          \<and> models (after (setActive kms i s)) = filter (\<lambda>m. id_m m \<noteq> id_m p) (models s)
          \<and> p \<notin> set (models (after (setActive kms i s)))
          \<and> (distinct (map id_m (models s)) \<longrightarrow>
               models (after (setActive kms i s)) = remove1 p (models s))
          \<and> activeId (after (setActive kms i s)) = i))
   \<and> (\<not> (\<exists>n p. find (\<lambda>m. id_m m = i) (models s) = Some n \<and> provider n = ''default'' \<and>
          find (\<lambda>m. id_m m = activeId s) (models s) = Some p \<and> isCustom p = Some True \<and>
          provider p \<noteq> [])
    \<longrightarrow> trace (setActive kms i s) = [] \<and> failure (setActive kms i s) = None
       \<and> after (setActive kms i s) = s\<lparr>activeId := i\<rparr>)"
proof (intro conjI impI)
  assume h: "find (\<lambda>m. id_m m = i) (models s) = Some n \<and> provider n = ''default'' \<and>
    find (\<lambda>m. id_m m = activeId s) (models s) = Some p \<and> isCustom p = Some True \<and>
    provider p \<noteq> []"
  then have run: "setActive kms i s =
      await_kms kms (DeleteAPIKey (provider p))
        (set_state (\<lambda>state.
           \<lparr>models = filter (\<lambda>m. id_m m \<noteq> id_m p) (models state), activeId = i\<rparr>)) s"
    by (simp add: setActive_def)
  from h have mem: "p \<in> set (models s)"
    by (auto dest: find_mem)
  show "trace (setActive kms i s) = [DeleteAPIKey (provider p)]"
    by (simp add: run)
  assume ok: "kms (DeleteAPIKey (provider p)) = None"
  show "failure (setActive kms i s) = None"
    by (simp add: run ok)
  show m: "models (after (setActive kms i s)) = filter (\<lambda>m. id_m m \<noteq> id_m p) (models s)"
    by (simp add: run ok)
  show "p \<notin> set (models (after (setActive kms i s)))"
    by (simp add: m)
  show "activeId (after (setActive kms i s)) = i"
    by (simp add: run ok)
  assume "distinct (map id_m (models s))"
  then show "models (after (setActive kms i s)) = remove1 p (models s)"
    using mem by (simp add: m filter_remove1)
next
  assume h: "\<not> (\<exists>n p. find (\<lambda>m. id_m m = i) (models s) = Some n \<and> provider n = ''default'' \<and>
          find (\<lambda>m. id_m m = activeId s) (models s) = Some p \<and> isCustom p = Some True \<and>
          provider p \<noteq> [])"
  then have run: "setActive kms i s = set_state (\<lambda>state. state\<lparr>activeId := i\<rparr>) s"
    by (auto simp: setActive_def split: option.splits)
  show "trace (setActive kms i s) = []" "failure (setActive kms i s) = None"
    "after (setActive kms i s) = s\<lparr>activeId := i\<rparr>"
    by (simp_all add: run)
qed

text \<open>
  The spec's example, \<open>setActive("default")\<close> from the custom \<open>gpt\<close>, and a switch between
  two custom entries, which makes no call.
\<close>

theorem setActive_discards_previous_on_default_witness:
  "trace (setActive kms_ok ''default'' with_gpt) = [DeleteAPIKey ''openai'']
   \<and> failure (setActive kms_ok ''default'' with_gpt) = None
   \<and> after (setActive kms_ok ''default'' with_gpt) =
       \<lparr>models = [default_model], activeId = ''default''\<rparr>
   \<and> trace (setActive kms_ok ''claude''
        \<lparr>models = [gpt_stored, claude_stored], activeId = ''gpt''\<rparr>) = []
   \<and> after (setActive kms_ok ''claude''
        \<lparr>models = [gpt_stored, claude_stored], activeId = ''gpt''\<rparr>) =
       \<lparr>models = [gpt_stored, claude_stored], activeId = ''claude''\<rparr>"
proof -
  have a: "find (\<lambda>m. id_m m = ''default'') (models with_gpt) = Some default_model \<and>
      provider default_model = ''default'' \<and>
      find (\<lambda>m. id_m m = activeId with_gpt) (models with_gpt) = Some gpt_stored \<and>
      isCustom gpt_stored = Some True \<and> provider gpt_stored \<noteq> []"
    by simp
  have b: "\<not> (\<exists>n p.
      find (\<lambda>m. id_m m = ''claude'')
        (models \<lparr>models = [gpt_stored, claude_stored], activeId = ''gpt''\<rparr>) = Some n \<and>
      provider n = ''default'' \<and>
      find (\<lambda>m. id_m m = activeId \<lparr>models = [gpt_stored, claude_stored], activeId = ''gpt''\<rparr>)
        (models \<lparr>models = [gpt_stored, claude_stored], activeId = ''gpt''\<rparr>) = Some p \<and>
      isCustom p = Some True \<and> provider p \<noteq> [])"
    by simp
  have c: "kms_ok (DeleteAPIKey (provider gpt_stored)) = None" and d: "distinct (map id_m (models with_gpt))"
    by simp_all
  from setActive_discards_previous_on_default
         [of "''default''" with_gpt default_model gpt_stored kms_ok] a c d
  have first: "trace (setActive kms_ok ''default'' with_gpt) = [DeleteAPIKey ''openai'']
      \<and> failure (setActive kms_ok ''default'' with_gpt) = None
      \<and> models (after (setActive kms_ok ''default'' with_gpt)) = [default_model]
      \<and> activeId (after (setActive kms_ok ''default'' with_gpt)) = ''default''"
    by simp
  then have "after (setActive kms_ok ''default'' with_gpt) =
       \<lparr>models = [default_model], activeId = ''default''\<rparr>"
    by (cases "after (setActive kms_ok ''default'' with_gpt)") simp
  moreover
  from setActive_discards_previous_on_default
         [of "''claude''" "\<lparr>models = [gpt_stored, claude_stored], activeId = ''gpt''\<rparr>" _ _ kms_ok] b
  have "trace (setActive kms_ok ''claude''
        \<lparr>models = [gpt_stored, claude_stored], activeId = ''gpt''\<rparr>) = []
   \<and> after (setActive kms_ok ''claude''
        \<lparr>models = [gpt_stored, claude_stored], activeId = ''gpt''\<rparr>) =
       \<lparr>models = [gpt_stored, claude_stored], activeId = ''claude''\<rparr>"
    by simp
  ultimately show ?thesis using first by simp
qed

text \<open>
  C6, amended. \<open>setActive(id)\<close> with \<open>id\<close> the current \<open>activeId\<close> makes no call and leaves
  the store as it was, unless the active entry has provider \<open>"default"\<close> and is custom.
\<close>

theorem setActive_same_id:
  assumes "i = activeId s"
    and "\<not> (\<exists>p. find (\<lambda>m. id_m m = i) (models s) = Some p \<and> provider p = ''default''
              \<and> isCustom p = Some True)"
  shows "trace (setActive kms i s) = [] \<and> failure (setActive kms i s) = None
       \<and> after (setActive kms i s) = s"
  using assms by (auto simp: setActive_def split: option.splits)

theorem setActive_same_id_witness:
  "''gpt'' = activeId with_gpt
   \<and> trace (setActive kms_down ''gpt'' with_gpt) = []
   \<and> failure (setActive kms_down ''gpt'' with_gpt) = None
   \<and> after (setActive kms_down ''gpt'' with_gpt) = with_gpt"
proof -
  have a: "''gpt'' = activeId with_gpt"
    by simp
  have b: "\<not> (\<exists>p. find (\<lambda>m. id_m m = ''gpt'') (models with_gpt) = Some p
      \<and> provider p = ''default'' \<and> isCustom p = Some True)"
    by simp
  from setActive_same_id [OF a b, of kms_down] a show ?thesis
    by simp
qed

text \<open>
  As stated, the claim fails for a custom entry of provider \<open>"default"\<close>: after
  \<open>addModel({id: "local", provider: "default", ...})\<close> on the initial state, \<open>"local"\<close> is
  active, and \<open>setActive("local")\<close> calls \<open>deleteAPIKey("default")\<close> and removes the entry.
\<close>

theorem setActive_same_id_counterexample:
  "activeId (after (addModel kms_ok local_input initial)) = ''local''
   \<and> trace (setActive kms_ok ''local'' (after (addModel kms_ok local_input initial)))
       = [DeleteAPIKey ''default'']
   \<and> after (setActive kms_ok ''local'' (after (addModel kms_ok local_input initial)))
       = \<lparr>models = [default_model], activeId = ''local''\<rparr>"
  by (simp add: added_local) (simp add: setActive_def)

subsection \<open>removeModel\<close>

text \<open>
  C3. Removing the active entry makes the first entry that remains the active one, or
  \<open>""\<close> when none remains. The code breaks this when the removed entry is the first one: it
  reads \<open>models[0]\<close> of the state before the removal, which is the entry being removed.
  With \<open>models = [gpt, claude]\<close> and \<open>activeId = "gpt"\<close>, \<open>removeModel("gpt")\<close> leaves
  \<open>activeId = "gpt"\<close>; on the initial state, \<open>removeModel("default")\<close> leaves no entry and
  \<open>activeId = "default"\<close>.
\<close>

theorem removeModel_first_keeps_activeId:
  "after (removeModel kms_ok ''gpt''
      \<lparr>models = [gpt_stored, claude_stored], activeId = ''gpt''\<rparr>)
     = \<lparr>models = [claude_stored], activeId = ''gpt''\<rparr>
   \<and> after (removeModel kms_ok ''default'' initial) = \<lparr>models = [], activeId = ''default''\<rparr>"
  by (simp add: removeModel_def initial_eq)

text \<open>
  In general: a successful removal of the first entry, when it is the active one, leaves
  \<open>activeId\<close> as it was; a removal of an active entry that is not the first one makes the
  first entry active.
\<close>

lemma removeModel_active_head:
  assumes "models s = a # rest" and "activeId s = id_m a"
    and "failure (removeModel kms (id_m a) s) = None"
  shows "activeId (after (removeModel kms (id_m a) s)) = id_m a"
  using assms by (auto simp: removeModel_def Let_def split: option.splits if_splits)

lemma removeModel_active_not_head:
  assumes "models s = a # rest" and "activeId s = i" and "id_m a \<noteq> i"
    and "failure (removeModel kms i s) = None"
  shows "activeId (after (removeModel kms i s)) = id_m a
    \<and> models (after (removeModel kms i s)) = a # filter (\<lambda>m. id_m m \<noteq> i) rest"
  using assms by (auto simp: removeModel_def Let_def split: option.splits if_splits)

subsection \<open>Invariants\<close>

text \<open>
  C5, amended. From a store whose \<open>activeId\<close> is valid, the store is valid again
  after any operation whose call rejected; after \<open>addModel\<close>; after
  \<open>updateModel(id, updates)\<close> unless \<open>id\<close> is the active id, matches an entry, and
  \<open>updates\<close> has an \<open>id\<close> key with another value; after \<open>setActive(id)\<close> when \<open>id\<close> is
  the id of an entry (or \<open>""\<close> with \<open>models\<close> empty), unless \<open>id\<close> is the active id and its
  entry is custom with provider \<open>"default"\<close>; and after \<open>removeModel(id)\<close> unless \<open>id\<close> is
  the active id and the id of the first entry of \<open>models\<close>.
\<close>

theorem activeId_valid_preserved:
  assumes "activeId_valid s"
  shows "(failure (perform kms op s) \<noteq> None \<longrightarrow> activeId_valid (after (perform kms op s)))
    \<and> activeId_valid (after (addModel kms model s))
    \<and> (\<not> (i = activeId s \<and> i \<in> set (map id_m (models s))
            \<and> (\<exists>j. id_u u = Some j \<and> j \<noteq> i))
        \<longrightarrow> activeId_valid (after (updateModel kms i u s)))
    \<and> ((i \<in> set (map id_m (models s)) \<or> (models s = [] \<and> i = []))
        \<and> \<not> (i = activeId s \<and> (\<exists>p. find (\<lambda>m. id_m m = i) (models s) = Some p
                \<and> provider p = ''default'' \<and> isCustom p = Some True))
        \<longrightarrow> activeId_valid (after (setActive kms i s)))
    \<and> (\<not> (i = activeId s \<and> (\<exists>a rest. models s = a # rest \<and> id_m a = i))
        \<longrightarrow> activeId_valid (after (removeModel kms i s)))"
proof (intro conjI impI)
  assume "failure (perform kms op s) \<noteq> None"
  then have "after (perform kms op s) = s"
    using perform_shape [of kms op s] by (auto split: if_splits)
  with assms show "activeId_valid (after (perform kms op s))"
    by simp
next
  show "activeId_valid (after (addModel kms model s))"
    using addModel_after [of kms model s] assms by (auto simp: activeId_valid_def)
next
  assume h: "\<not> (i = activeId s \<and> i \<in> set (map id_m (models s))
            \<and> (\<exists>j. id_u u = Some j \<and> j \<noteq> i))"
  have "activeId_valid
      (s\<lparr>models := map (\<lambda>m. if id_m m = i then spread m u else m) (models s)\<rparr>)"
  proof (cases "i \<in> set (map id_m (models s))")
    case False
    then show ?thesis
      using assms by (simp add: map_no_match)
  next
    case True
    note matched = this
    show ?thesis
    proof (cases "i = activeId s")
      case False
      from matched have "models s \<noteq> []"
        by auto
      with assms have "activeId s \<in> set (map id_m (models s))"
        by (simp add: activeId_valid_def)
      from ids_spread_other [OF False this] show ?thesis
        by (simp add: activeId_valid_def del: map_map)
    next
      case True
      with h matched have same: "id_u u = None \<or> id_u u = Some i"
        by (cases "id_u u") auto
      have "map id_m (map (\<lambda>m. if id_m m = i then spread m u else m) (models s))
          = map id_m (models s)"
        using same by (induction "models s" arbitrary: s) (auto simp: spread_def)
      then show ?thesis
        using assms by (simp add: activeId_valid_def del: map_map)
    qed
  qed
  then show "activeId_valid (after (updateModel kms i u s))"
    using updateModel_after [of kms i u s] assms by auto
next
  assume h: "(i \<in> set (map id_m (models s)) \<or> (models s = [] \<and> i = []))
        \<and> \<not> (i = activeId s \<and> (\<exists>p. find (\<lambda>m. id_m m = i) (models s) = Some p
                \<and> provider p = ''default'' \<and> isCustom p = Some True))"
  from setActive_after [of kms i s]
  consider "after (setActive kms i s) = s" | "after (setActive kms i s) = s\<lparr>activeId := i\<rparr>"
    | p n where "find (\<lambda>m. id_m m = activeId s) (models s) = Some p" "isCustom p = Some True"
        "find (\<lambda>m. id_m m = i) (models s) = Some n" "provider n = ''default''"
        "after (setActive kms i s) =
           \<lparr>models = filter (\<lambda>m. id_m m \<noteq> activeId s) (models s), activeId = i\<rparr>"
    by blast
  then show "activeId_valid (after (setActive kms i s))"
  proof cases
    case 1
    then show ?thesis
      using assms by simp
  next
    case 2
    then show ?thesis
      using h by (auto simp: activeId_valid_def)
  next
    case 3
    with h have "i \<noteq> activeId s"
      by auto
    moreover from 3 have "i \<in> set (map id_m (models s))"
      by (auto dest: find_mem)
    ultimately show ?thesis
      using 3 by (auto simp: activeId_valid_def)
  qed
next
  assume h: "\<not> (i = activeId s \<and> (\<exists>a rest. models s = a # rest \<and> id_m a = i))"
  have "activeId_valid
     \<lparr>models = filter (\<lambda>m. id_m m \<noteq> i) (models s),
      activeId =
        (if activeId s = i
         then (case models s of m # _ \<Rightarrow> (if id_m m \<noteq> [] then id_m m else []) | [] \<Rightarrow> [])
         else activeId s)\<rparr>"
  proof (cases "activeId s = i")
    case False
    then show ?thesis
      using assms by (auto simp: activeId_valid_def)
  next
    case True
    show ?thesis
    proof (cases "models s")
      case Nil
      with True show ?thesis
        by (simp add: activeId_valid_def)
    next
      case (Cons a rest)
      with h True have "id_m a \<noteq> i"
        by auto
      with True Cons show ?thesis
        by (simp add: activeId_valid_def)
    qed
  qed
  then show "activeId_valid (after (removeModel kms i s))"
    using removeModel_after [of kms i s] assms by auto
qed

text \<open>
  On \<open>[default, gpt]\<close> with \<open>gpt\<close> active: a rejected removal, an added profile, a rename
  of \<open>gpt\<close> to its own id, \<open>setActive("gpt")\<close>, and the removal of \<open>gpt\<close>, which is active
  and not the first entry, so that \<open>default\<close> becomes the active one.
\<close>

theorem activeId_valid_preserved_witness:
  "activeId_valid with_gpt
   \<and> failure (perform kms_down (RemoveModel ''gpt'') with_gpt) \<noteq> None
   \<and> activeId_valid (after (perform kms_down (RemoveModel ''gpt'') with_gpt))
   \<and> activeId_valid (after (addModel kms_ok (claude_stored\<lparr>apiKey := Some ''sk-ant''\<rparr>) with_gpt))
   \<and> activeId_valid (after (updateModel kms_ok ''gpt''
        (no_updates\<lparr>id_u := Some ''gpt'', name_u := Some ''GPT-4''\<rparr>) with_gpt))
   \<and> activeId_valid (after (setActive kms_ok ''gpt'' with_gpt))
   \<and> activeId_valid (after (removeModel kms_ok ''gpt'' with_gpt))
   \<and> after (removeModel kms_ok ''gpt'' with_gpt) =
       \<lparr>models = [default_model], activeId = ''default''\<rparr>"
proof -
  have v: "activeId_valid with_gpt"
    by (simp add: activeId_valid_def)
  have f: "failure (perform kms_down (RemoveModel ''gpt'') with_gpt) \<noteq> None"
    by (simp add: removeModel_def)
  have r: "after (removeModel kms_ok ''gpt'' with_gpt) =
       \<lparr>models = [default_model], activeId = ''default''\<rparr>"
    by (simp add: removeModel_def)
  from activeId_valid_preserved [OF v, where kms = kms_down and op = "RemoveModel ''gpt''"] f
  have "activeId_valid (after (perform kms_down (RemoveModel ''gpt'') with_gpt))"
    by blast
  moreover
  from activeId_valid_preserved [OF v, where kms = kms_ok and i = "''gpt''"
      and model = "claude_stored\<lparr>apiKey := Some ''sk-ant''\<rparr>"
      and u = "no_updates\<lparr>id_u := Some ''gpt'', name_u := Some ''GPT-4''\<rparr>"]
  have "activeId_valid (after (addModel kms_ok (claude_stored\<lparr>apiKey := Some ''sk-ant''\<rparr>) with_gpt))
   \<and> activeId_valid (after (updateModel kms_ok ''gpt''
        (no_updates\<lparr>id_u := Some ''gpt'', name_u := Some ''GPT-4''\<rparr>) with_gpt))
   \<and> activeId_valid (after (setActive kms_ok ''gpt'' with_gpt))
   \<and> activeId_valid (after (removeModel kms_ok ''gpt'' with_gpt))"
    by simp
  ultimately show ?thesis
    using v f r by blast
qed

text \<open>
  As stated, the claim fails: \<open>setActive\<close> takes any id, so \<open>setActive("ghost")\<close> on the
  initial state makes \<open>"ghost"\<close> active; \<open>updateModel("gpt", {id: "gpt4"})\<close> renames the
  active entry and leaves \<open>activeId = "gpt"\<close>; and \<open>setActive("local")\<close> on the active
  custom entry \<open>local\<close> of provider \<open>"default"\<close> removes it and leaves it active.
\<close>

theorem activeId_valid_counterexample:
  "activeId_valid initial
   \<and> \<not> activeId_valid (after (setActive kms_ok ''ghost'' initial))
   \<and> activeId_valid (after (addModel kms_ok gpt_input initial))
   \<and> \<not> activeId_valid (after (updateModel kms_ok ''gpt'' (no_updates\<lparr>id_u := Some ''gpt4''\<rparr>)
          (after (addModel kms_ok gpt_input initial))))
   \<and> activeId_valid (after (addModel kms_ok local_input initial))
   \<and> \<not> activeId_valid (after (setActive kms_ok ''local''
          (after (addModel kms_ok local_input initial))))"
  by (simp add: added_gpt added_local)
     (simp add: initial_eq activeId_valid_def setActive_def updateModel_def spread_def)




end
